theory Spec2Isabelle
  imports Complex_Main "HOL-Library.Word" "HOL-Library.Signed_Division" "HOL-Library.Stream"
    "HOL-Library.Log_Nat"
begin

section \<open>Durations and the arithmetic of the source\<close>

text \<open>
  A Go \<open>time.Duration\<close> is an \<open>int64\<close> count of nanoseconds, a \<open>uint64\<close> iteration
  counter is an unsigned 64-bit word. Both are \<open>64 word\<close>: \<open>+\<close> and \<open>*\<close> wrap around,
  \<open>sint\<close> reads a duration as two's complement, \<open><s\<close> and \<open>\<le>s\<close> are the signed
  comparisons of \<open>int64\<close>, \<open><\<close> and \<open>\<le>\<close> the unsigned ones of \<open>uint64\<close>.
\<close>

type_synonym Duration = "64 word"
type_synonym int64 = "64 word"
type_synonym uint64 = "64 word"

definition numUint64Bits :: uint64 where
  "numUint64Bits = 64"

definition zeroDuration :: Duration where
  "zeroDuration = 0"

definition MaxInt64 :: int64 where
  "MaxInt64 = 9223372036854775807"

text \<open>The constants of Go's \<open>time\<close> package, in nanoseconds.\<close>

definition time_Millisecond :: Duration where
  "time_Millisecond = 1000000"

definition time_Second :: Duration where
  "time_Second = 1000000000"

text \<open>
  Go's \<open>/\<close> on \<open>int64\<close> truncates towards zero; the quotient wraps in the one case
  that leaves the range. Every divisor in the source is a positive constant or a
  positive power of two, so the panic on a zero divisor is never reached.
\<close>

definition int64_div :: "int64 \<Rightarrow> int64 \<Rightarrow> int64" where
  "int64_div a b = word_of_int (sint a sdiv sint b)"

definition minInt64 :: "int64 \<Rightarrow> int64 \<Rightarrow> int64" where
  "minInt64 a b = (if a <s b then a else b)"

definition maxInt64 :: "int64 \<Rightarrow> int64 \<Rightarrow> int64" where
  "maxInt64 a b = (if b <s a then a else b)"

section \<open>Floating point\<close>

text \<open>
  The source computes its jitter in \<open>float64\<close>. A finite \<open>float64\<close> is a rational
  number, and an operation of IEEE 754 binary64 is the exact operation followed by the
  rounding to the nearest number with a significand of 53 bits, a tie going to the even
  significand. \<open>binade x\<close> is the exponent \<open>e\<close> with \<open>2 ^ e \<le> x < 2 ^ (e + 1)\<close> of a
  positive \<open>x\<close>, so the numbers of the format around \<open>x\<close> are the multiples of
  \<open>2 ^ (e - 52)\<close>. Overflow to infinity and subnormal numbers are left out: the values
  of this program stay below \<open>2 ^ 65\<close> in magnitude and, when they are not zero, far above
  the subnormal range.
  Each operation rounds on its own, as it does on amd64, where Go does not fuse a
  multiplication with an addition.
\<close>

definition binade :: "rat \<Rightarrow> int" where
  "binade x = (if 1 \<le> x then bitlen \<lfloor>x\<rfloor> - 1 else - bitlen (\<lceil>1 / x\<rceil> - 1))"

definition round_to_even :: "rat \<Rightarrow> int" where
  "round_to_even q =
     (if q - of_int \<lfloor>q\<rfloor> < 1 / 2 then \<lfloor>q\<rfloor>
      else if 1 / 2 < q - of_int \<lfloor>q\<rfloor> then \<lfloor>q\<rfloor> + 1
      else if even \<lfloor>q\<rfloor> then \<lfloor>q\<rfloor> else \<lfloor>q\<rfloor> + 1)"

definition float64_round :: "rat \<Rightarrow> rat" where
  "float64_round x =
     (if x = 0 then 0
      else sgn x * of_int (round_to_even (\<bar>x\<bar> / 2 powi (binade \<bar>x\<bar> - 52)))
             * 2 powi (binade \<bar>x\<bar> - 52))"

text \<open>The conversion \<open>float64(x)\<close> of an \<open>int64\<close>, and \<open>+\<close>, \<open>-\<close> and \<open>*\<close> on \<open>float64\<close>.\<close>

definition float64 :: "int64 \<Rightarrow> rat" where
  "float64 x = float64_round (of_int (sint x))"

definition float64_add :: "rat \<Rightarrow> rat \<Rightarrow> rat" where
  "float64_add a b = float64_round (a + b)"

definition float64_sub :: "rat \<Rightarrow> rat \<Rightarrow> rat" where
  "float64_sub a b = float64_round (a - b)"

definition float64_mul :: "rat \<Rightarrow> rat \<Rightarrow> rat" where
  "float64_mul a b = float64_round (a * b)"

text \<open>
  The conversion \<open>int64(f)\<close> of a \<open>float64\<close> drops the fraction. Where the result
  does not fit into an \<open>int64\<close>, Go leaves it to the implementation; the model gives the
  smallest \<open>int64\<close>, as amd64 does.
\<close>

definition int64_of_float :: "rat \<Rightarrow> int64" where
  "int64_of_float f =
     (let t = (if 0 \<le> f then \<lfloor>f\<rfloor> else \<lceil>f\<rceil>)
      in if - (2 ^ 63) \<le> t \<and> t < 2 ^ 63 then word_of_int t else word_of_int (- (2 ^ 63)))"

text \<open>
  The global random source: the stream of the values that successive calls of
  \<open>rand.Float64()\<close> return, each a \<open>float64\<close> in \<open>[0, 1)\<close>. A call takes the head
  and leaves the tail.
\<close>

type_synonym Rand = "rat stream"

definition rand_Float64 :: "Rand \<Rightarrow> rat \<times> Rand" where
  "rand_Float64 g = (shd g, stl g)"

section \<open>Backoff strategies\<close>

record FixedBackoff =
  wait :: Duration

record DecorrelatedExponentialBackoff =
  minWait :: Duration
  maxWait :: Duration

record decorrelatedExponentialBackoff =
  minWait :: Duration
  maxWait :: Duration
  lastWait :: Duration

record ExponentialBackoff =
  minWait :: Duration
  maxWait :: Duration
  jitter :: bool

definition NewFixedBackoff :: "Duration \<Rightarrow> FixedBackoff" where
  "NewFixedBackoff w = \<lparr>wait = w\<rparr>"

definition NewDecorrelatedExponentialBackoff ::
  "Duration \<Rightarrow> Duration \<Rightarrow> DecorrelatedExponentialBackoff" where
  "NewDecorrelatedExponentialBackoff mn mx =
     \<lparr>DecorrelatedExponentialBackoff.minWait = mn, maxWait = mx\<rparr>"

definition NewExponentialBackoff :: "Duration \<Rightarrow> Duration \<Rightarrow> ExponentialBackoff" where
  "NewExponentialBackoff mn mx =
     \<lparr>ExponentialBackoff.minWait = mn, maxWait = mx, jitter = True\<rparr>"

text \<open>\<open>(*DecorrelatedExponentialBackoff).New\<close>: a fresh instance; \<open>lastWait\<close> has Go's zero value.\<close>

definition DecorrelatedExponentialBackoff_New ::
  "DecorrelatedExponentialBackoff \<Rightarrow> decorrelatedExponentialBackoff" where
  "DecorrelatedExponentialBackoff_New b =
     \<lparr>decorrelatedExponentialBackoff.minWait = DecorrelatedExponentialBackoff.minWait b,
      maxWait = DecorrelatedExponentialBackoff.maxWait b,
      lastWait = 0\<rparr>"

text \<open>
  \<open>(*decorrelatedExponentialBackoff).getDuration\<close>. The method mutates its receiver
  and reads the random source, so it returns the duration, the receiver and the random
  source after the call.
\<close>

definition decorrelatedExponentialBackoff_getDuration ::
  "decorrelatedExponentialBackoff \<Rightarrow> Rand \<Rightarrow> Duration \<times> decorrelatedExponentialBackoff \<times> Rand" where
  "decorrelatedExponentialBackoff_getDuration b g =
     (if lastWait b = zeroDuration
      then (decorrelatedExponentialBackoff.minWait b,
            b\<lparr>lastWait := decorrelatedExponentialBackoff.minWait b\<rparr>, g)
      else
        let mx = (if int64_div MaxInt64 3 <s lastWait b then MaxInt64 else lastWait b * 3);
            minWaitF = float64 (decorrelatedExponentialBackoff.minWait b);
            (r, g') = rand_Float64 g;
            duration = minInt64 (decorrelatedExponentialBackoff.maxWait b)
                         (int64_of_float
                            (float64_add (float64_mul r (float64_sub (float64 mx) minWaitF))
                               minWaitF))
        in (duration, b, g'))"

text \<open>\<open>(*ExponentialBackoff).getDuration\<close>; the receiver is only read.\<close>

definition ExponentialBackoff_getDuration ::
  "ExponentialBackoff \<Rightarrow> uint64 \<Rightarrow> Rand \<Rightarrow> Duration \<times> Rand" where
  "ExponentialBackoff_getDuration b iteration g =
     (if numUint64Bits - 1 \<le> iteration then (ExponentialBackoff.maxWait b, g)
      else
        let multiplier = push_bit (unat iteration) (1 :: int64);
            duration = (if int64_div (ExponentialBackoff.maxWait b) multiplier
                             <s ExponentialBackoff.minWait b
                        then ExponentialBackoff.maxWait b
                        else ExponentialBackoff.minWait b * multiplier);
            (duration, g') =
               (if jitter b
                then (let (r, g') = rand_Float64 g
                      in (int64_of_float
                            (float64_mul (float64 duration)
                               (float64_mul (1 / 2) (float64_add r 1))), g'))
                else (duration, g))
        in (maxInt64 duration (ExponentialBackoff.minWait b), g'))"

section \<open>The interfaces \<open>BackoffFactory\<close> and \<open>Backoff\<close>\<close>

text \<open>
  What a backoff does is an effect on the world outside the retrier: it sleeps, it reads
  the random source, or it runs a callback that writes the variables its closure
  captured. The world is passed explicitly: \<open>closure\<close> holds the captured variables of
  the callbacks, \<open>rand\<close> the random source, \<open>slept\<close> the arguments of the calls of
  \<open>time.Sleep\<close> so far, in order.
\<close>

record 'c World =
  closure :: 'c
  rand :: Rand
  slept :: "Duration list"

definition time_Sleep :: "Duration \<Rightarrow> 'c World \<Rightarrow> 'c World" where
  "time_Sleep d w = w\<lparr>slept := slept w @ [d]\<rparr>"

text \<open>
  The values that implement \<open>BackoffFactory\<close>, and the values that implement
  \<open>Backoff\<close>. A \<open>FunctionalBackoff\<close>, a \<open>*FixedBackoff\<close> and an \<open>*ExponentialBackoff\<close>
  implement both and return themselves from \<open>New\<close>.
\<close>

datatype 'c BackoffFactory =
    FunctionalBackoff "uint64 \<Rightarrow> 'c \<Rightarrow> 'c"
  | FixedBackoff_ptr FixedBackoff
  | DecorrelatedExponentialBackoff_ptr DecorrelatedExponentialBackoff
  | ExponentialBackoff_ptr ExponentialBackoff

datatype 'c Backoff =
    FunctionalBackoff_backoff "uint64 \<Rightarrow> 'c \<Rightarrow> 'c"
  | FixedBackoff_backoff FixedBackoff
  | decorrelatedExponentialBackoff_ptr decorrelatedExponentialBackoff
  | ExponentialBackoff_backoff ExponentialBackoff

fun New :: "'c BackoffFactory \<Rightarrow> 'c Backoff" where
  "New (FunctionalBackoff f) = FunctionalBackoff_backoff f"
| "New (FixedBackoff_ptr b) = FixedBackoff_backoff b"
| "New (DecorrelatedExponentialBackoff_ptr b) =
     decorrelatedExponentialBackoff_ptr (DecorrelatedExponentialBackoff_New b)"
| "New (ExponentialBackoff_ptr b) = ExponentialBackoff_backoff b"

text \<open>The method \<open>Backoff(iteration)\<close> of the interface \<open>Backoff\<close>: the instance and the world after the call.\<close>

fun Backoff_Backoff :: "'c Backoff \<Rightarrow> uint64 \<Rightarrow> 'c World \<Rightarrow> 'c Backoff \<times> 'c World" where
  "Backoff_Backoff (FunctionalBackoff_backoff f) iteration w =
     (FunctionalBackoff_backoff f, w\<lparr>closure := f iteration (closure w)\<rparr>)"
| "Backoff_Backoff (FixedBackoff_backoff b) iteration w =
     (FixedBackoff_backoff b, time_Sleep (wait b) w)"
| "Backoff_Backoff (decorrelatedExponentialBackoff_ptr b) iteration w =
     (let (d, b', g') = decorrelatedExponentialBackoff_getDuration b (rand w)
      in (decorrelatedExponentialBackoff_ptr b', time_Sleep d (w\<lparr>rand := g'\<rparr>)))"
| "Backoff_Backoff (ExponentialBackoff_backoff b) iteration w =
     (let (d, g') = ExponentialBackoff_getDuration b iteration (rand w)
      in (ExponentialBackoff_backoff b, time_Sleep d (w\<lparr>rand := g'\<rparr>)))"

definition NoopBackoff :: "'c BackoffFactory" where
  "NoopBackoff = FunctionalBackoff (\<lambda>iteration c. c)"

definition DefaultBackoff :: "'c BackoffFactory" where
  "DefaultBackoff = DecorrelatedExponentialBackoff_ptr
     (NewDecorrelatedExponentialBackoff (time_Millisecond * 500) (time_Second * 60))"

section \<open>The retrier\<close>

text \<open>A Go \<open>error\<close> is \<open>None\<close> when it is \<open>nil\<close>.\<close>

definition defaultMaxAttempts :: uint64 where
  "defaultMaxAttempts = 1"

definition AnyErr :: "'e option \<Rightarrow> bool" where
  "AnyErr err = (err \<noteq> None)"

record ('e, 'c) Retrier =
  maxAttempts :: uint64
  isRetriable :: "'e option \<Rightarrow> bool"
  backoffFactory :: "'c BackoffFactory"

type_synonym ('e, 'c) Option = "('e, 'c) Retrier \<Rightarrow> ('e, 'c) Retrier"

definition MaxAttemptsOption :: "uint64 \<Rightarrow> ('e, 'c) Option" where
  "MaxAttemptsOption attempts = (\<lambda>retrier. retrier\<lparr>maxAttempts := attempts\<rparr>)"

definition RetriableOption :: "('e option \<Rightarrow> bool) \<Rightarrow> ('e, 'c) Option" where
  "RetriableOption p = (\<lambda>retrier. retrier\<lparr>isRetriable := p\<rparr>)"

definition BackoffOption :: "'c BackoffFactory \<Rightarrow> ('e, 'c) Option" where
  "BackoffOption backoff = (\<lambda>retrier. retrier\<lparr>backoffFactory := backoff\<rparr>)"

definition NewRetrier :: "('e, 'c) Option list \<Rightarrow> ('e, 'c) Retrier" where
  "NewRetrier options =
     fold (\<lambda>option r. option r) options
       \<lparr>maxAttempts = defaultMaxAttempts, isRetriable = AnyErr, backoffFactory = DefaultBackoff\<rparr>"

text \<open>
  The operation \<open>fn\<close> is a closure: it is a function from the state of its captured
  variables to its result and their new state. \<open>makeFn\<close> is the one of the tests, whose
  state is its counter.
\<close>

definition makeFn :: "int64 \<Rightarrow> int64 \<Rightarrow> string option \<times> int64" where
  "makeFn i count = (if count <s i then (Some ''err'', count + 1) else (None, count))"

text \<open>
  What \<open>Do\<close> calls, in order, is kept in a history, so that the number and the order of
  the calls can be stated: \<open>NewBackoff\<close> for \<open>r.backoffFactory.New()\<close>, \<open>Invoke err\<close>
  for a call of \<open>fn\<close> that returned \<open>err\<close>, \<open>Pause i\<close> for \<open>backoff.Backoff(i)\<close>.
\<close>

datatype 'e event = NewBackoff | Invoke "'e option" | Pause uint64

record ('e, 's, 'c) Run =
  err :: "'e option"
  fnState :: 's
  backoff :: "'c Backoff"
  world :: "'c World"
  history :: "'e event list"

fun invocations :: "'e event list \<Rightarrow> 'e option list" where
  "invocations [] = []"
| "invocations (Invoke e # h) = e # invocations h"
| "invocations (NewBackoff # h) = invocations h"
| "invocations (Pause i # h) = invocations h"

fun pauses :: "'e event list \<Rightarrow> uint64 list" where
  "pauses [] = []"
| "pauses (Pause i # h) = i # pauses h"
| "pauses (NewBackoff # h) = pauses h"
| "pauses (Invoke e # h) = pauses h"

fun news :: "'e event list \<Rightarrow> nat" where
  "news [] = 0"
| "news (NewBackoff # h) = Suc (news h)"
| "news (Invoke e # h) = news h"
| "news (Pause i # h) = news h"

text \<open>The loop of \<open>Do\<close>, from the counter \<open>i\<close> on; returning from the loop ends it.\<close>

function Do_loop ::
  "('e, 'c) Retrier \<Rightarrow> ('s \<Rightarrow> 'e option \<times> 's) \<Rightarrow> uint64 \<Rightarrow> ('e, 's, 'c) Run \<Rightarrow> ('e, 's, 'c) Run" where
  "Do_loop r fn i x =
     (if i < maxAttempts r then
        (let (e, s') = fn (fnState x);
             x1 = x\<lparr>err := e, fnState := s', history := history x @ [Invoke e]\<rparr>
         in if \<not> isRetriable r e then x1
            else
              let x2 = (if i + 1 < maxAttempts r
                        then (let (b', w') = Backoff_Backoff (backoff x1) i (world x1)
                              in x1\<lparr>backoff := b', world := w',
                                    history := history x1 @ [Pause i]\<rparr>)
                        else x1)
              in Do_loop r fn (i + 1) x2)
      else x)"
  by pat_completeness auto
termination
proof (relation "measure (\<lambda>(r, fn, i, x). unat (maxAttempts r) - unat i)", goal_cases)
  case 1
  show ?case by simp
next
  case (2 r fn i x p e s' x1 x2)
  have below: "unat i < unat (maxAttempts r)"
    using \<open>i < maxAttempts r\<close> by (simp add: word_less_nat_alt)
  have "unat (maxAttempts r) < 2 ^ 64"
    using unsigned_less [of "maxAttempts r"] by simp
  with below have "unat (i + 1) = Suc (unat i)"
    by (simp add: unat_word_ariths)
  with below show ?case
    by simp
qed

declare Do_loop.simps [simp del]

text \<open>\<open>(*Retrier).Do\<close>: the run it ends in; its return value is \<open>err\<close> of that run.\<close>

definition Do ::
  "('e, 'c) Retrier \<Rightarrow> ('s \<Rightarrow> 'e option \<times> 's) \<Rightarrow> 's \<Rightarrow> 'c World \<Rightarrow> ('e, 's, 'c) Run" where
  "Do r fn s w =
     Do_loop r fn 0
       \<lparr>err = None, fnState = s, backoff = New (backoffFactory r), world = w,
        history = [NewBackoff]\<rparr>"

text \<open>
  The closure \<open>fn\<close> seen from outside: the state of its captured variables after \<open>k\<close>
  calls, and the result of the call that follows them (the call number \<open>k + 1\<close>).
\<close>

definition fnStateAfter :: "('s \<Rightarrow> 'e option \<times> 's) \<Rightarrow> nat \<Rightarrow> 's \<Rightarrow> 's" where
  "fnStateAfter fn k s = ((\<lambda>s. snd (fn s)) ^^ k) s"

definition fnResult :: "('s \<Rightarrow> 'e option \<times> 's) \<Rightarrow> nat \<Rightarrow> 's \<Rightarrow> 'e option" where
  "fnResult fn k s = fst (fn (fnStateAfter fn k s))"

section \<open>Successive calls\<close>

text \<open>
  \<open>getDurations n\<close> is \<open>n\<close> successive calls of \<open>getDuration\<close> on one instance of the
  decorrelated backoff: the durations returned, in order, the instance and the random
  source afterwards.
\<close>

fun getDurations ::
  "nat \<Rightarrow> decorrelatedExponentialBackoff \<Rightarrow> Rand
     \<Rightarrow> Duration list \<times> decorrelatedExponentialBackoff \<times> Rand" where
  "getDurations 0 b g = ([], b, g)"
| "getDurations (Suc n) b g =
     (let (d, b', g') = decorrelatedExponentialBackoff_getDuration b g;
          (ds, b'', g'') = getDurations n b' g'
      in (d # ds, b'', g''))"


section \<open>Facts about 64-bit arithmetic\<close>

lemma sint_of_int_64:
  "- (2 ^ 63) \<le> k \<Longrightarrow> k < 2 ^ 63 \<Longrightarrow> sint (word_of_int k :: 64 word) = k"
  by (simp add: sint_sbintrunc' signed_take_bit_int_eq_self)

lemma sint_range_64: "- (2 ^ 63) \<le> sint (x :: 64 word) \<and> sint x < 2 ^ 63"
  using sint_ge [of x] sint_lt [of x] by simp

lemma sint_MaxInt64: "sint MaxInt64 = 9223372036854775807"
  by (simp add: MaxInt64_def)



section \<open>Facts about the rounding\<close>

lemma round_to_even_lower: "of_int A \<le> q \<Longrightarrow> A \<le> round_to_even q"
proof -
  assume "of_int A \<le> q"
  then have "A \<le> \<lfloor>q\<rfloor>" by (simp add: le_floor_iff)
  then show ?thesis by (simp add: round_to_even_def)
qed

lemma round_to_even_upper:
  assumes "q \<le> of_int C"
  shows "round_to_even q \<le> C"
proof (cases "q - of_int \<lfloor>q\<rfloor> < 1 / 2")
  case True
  have "of_int \<lfloor>q\<rfloor> \<le> (of_int C :: rat)"
    using assms of_int_floor_le [of q] by linarith
  then have "\<lfloor>q\<rfloor> \<le> C" by simp
  with True show ?thesis by (simp add: round_to_even_def)
next
  case False
  then have "of_int \<lfloor>q\<rfloor> < (of_int C :: rat)"
    using assms by linarith
  then have "\<lfloor>q\<rfloor> < C" by simp
  then show ?thesis by (simp add: round_to_even_def)
qed

lemma binade_below:
  assumes "0 < x" "x < 2 ^ n"
  shows "binade x < int n"
proof (cases "1 \<le> x")
  case True
  have "\<lfloor>x\<rfloor> < 2 ^ n"
    using assms(2) by (simp add: floor_less_iff)
  then have "bitlen \<lfloor>x\<rfloor> \<le> int n"
    by (simp add: bitlen_le_iff_power)
  with True show ?thesis by (simp add: binade_def)
next
  case False
  then have "1 < 1 / x"
    using assms(1) by (simp add: field_simps)
  then have "1 < \<lceil>1 / x\<rceil>"
    by (simp add: less_ceiling_iff)
  then have "1 \<le> bitlen (\<lceil>1 / x\<rceil> - 1)"
    by (simp add: bitlen_ge_iff_power)
  with False show ?thesis by (simp add: binade_def)
qed


lemma float64_round_between:
  assumes pos: "0 < x" and fine: "int j + binade x \<le> 52"
    and lo: "of_int A / 2 ^ j \<le> x" and hi: "x \<le> of_int C / 2 ^ j"
  shows "of_int A / 2 ^ j \<le> float64_round x \<and> float64_round x \<le> of_int C / 2 ^ j"
proof -
  define k where "k = nat (52 - binade x)"
  have kj: "j \<le> k"
    using fine by (simp add: k_def)
  have "binade x - 52 = - int k"
    using fine by (simp add: k_def)
  then have "(2::rat) powi (binade x - 52) = 2 powi (- int k)"
    by (rule arg_cong)
  then have u: "2 powi (binade x - 52) = 1 / (2::rat) ^ k"
    by (simp add: power_int_minus inverse_eq_divide)
  have split: "(2::rat) ^ k = 2 ^ (k - j) * 2 ^ j"
    using kj by (simp flip: power_add)
  have fl: "float64_round x = of_int (round_to_even (x * 2 ^ k)) / 2 ^ k"
    using pos by (simp add: float64_round_def u)
  have "of_int A / 2 ^ j * 2 ^ k \<le> x * (2::rat) ^ k"
    using lo by (intro mult_right_mono) simp_all
  then have "of_int (A * 2 ^ (k - j)) \<le> x * (2::rat) ^ k"
    by (simp add: split)
  then have "A * 2 ^ (k - j) \<le> round_to_even (x * 2 ^ k)"
    by (rule round_to_even_lower)
  then have "(of_int (A * 2 ^ (k - j)) :: rat) \<le> of_int (round_to_even (x * 2 ^ k))"
    by (simp only: of_int_le_iff)
  then have "(of_int (A * 2 ^ (k - j)) :: rat) / 2 ^ k \<le> of_int (round_to_even (x * 2 ^ k)) / 2 ^ k"
    by (intro divide_right_mono) simp_all
  then have low: "of_int A / 2 ^ j \<le> float64_round x"
    by (simp add: fl split)
  have "x * (2::rat) ^ k \<le> of_int C / 2 ^ j * 2 ^ k"
    using hi by (intro mult_right_mono) simp_all
  then have "x * (2::rat) ^ k \<le> of_int (C * 2 ^ (k - j))"
    by (simp add: split)
  then have "round_to_even (x * 2 ^ k) \<le> C * 2 ^ (k - j)"
    by (rule round_to_even_upper)
  then have "(of_int (round_to_even (x * 2 ^ k)) :: rat) \<le> of_int (C * 2 ^ (k - j))"
    by (simp only: of_int_le_iff)
  then have "(of_int (round_to_even (x * 2 ^ k)) :: rat) / 2 ^ k \<le> of_int (C * 2 ^ (k - j)) / 2 ^ k"
    by (intro divide_right_mono) simp_all
  then have "float64_round x \<le> of_int C / 2 ^ j"
    by (simp add: fl split)
  with low show ?thesis ..
qed

text \<open>Between two integers below \<open>2 ^ 53\<close> the rounding stays between them.\<close>

lemma float64_round_int_range:
  assumes "0 \<le> A" "of_int A \<le> x" "x \<le> of_int C" "C < 2 ^ 53"
  shows "of_int A \<le> float64_round x \<and> float64_round x \<le> of_int C"
proof (cases "x = 0")
  case True
  with assms show ?thesis by (simp add: float64_round_def)
next
  case False
  have "(0::rat) \<le> of_int A" using assms(1) by simp
  with False assms(2) have pos: "0 < x" by linarith
  have "(of_int C :: rat) < 2 ^ 53"
    using assms(4) by (simp flip: of_int_less_iff)
  then have "x < 2 ^ 53" using assms(3) by linarith
  from binade_below [OF pos this] have fine: "int 0 + binade x \<le> 52" by simp
  from float64_round_between [OF pos fine, of A C] assms(2,3)
  show ?thesis by simp
qed

lemma float64_round_exact:
  assumes "0 \<le> k" "k < 2 ^ 53"
  shows "float64_round (of_int k) = of_int k"
  using float64_round_int_range [OF assms(1) order_refl order_refl assms(2)] by simp


section \<open>The decorrelated exponential backoff\<close>





lemma float64_round_numeral:
  "numeral n < (2::int) ^ 53 \<Longrightarrow> float64_round (numeral n) = numeral n"
  using float64_round_exact [of "numeral n"] by simp

lemmas decorrelated_simps = DecorrelatedExponentialBackoff_New_def
  NewDecorrelatedExponentialBackoff_def decorrelatedExponentialBackoff_getDuration_def
  zeroDuration_def int64_div_def MaxInt64_def signed_divide_int_def rand_Float64_def
  float64_def float64_add_def float64_sub_def float64_mul_def int64_of_float_def
  minInt64_def word_sless_alt word_sle_eq


text \<open>
  C2: the call after the first draws from \<open>[minWait, 3 * lastWait)\<close> and clamps to
  \<open>maxWait\<close>, but it does not store the duration it returns. With the bounds 100 and
  30000 and a random source that always returns 0.75, three successive calls return 100,
  250 and 250, and \<open>lastWait\<close> is still 100: the third call draws from \<open>[100, 300)\<close>
  again, not from \<open>[100, 750)\<close>, where 0.75 gives 587.
\<close>

theorem getDuration_keeps_lastWait:
  "getDurations (Suc (Suc (Suc 0)))
     (DecorrelatedExponentialBackoff_New (NewDecorrelatedExponentialBackoff 100 30000))
     (sconst (3 / 4)) =
   ([100, 250, 250],
    \<lparr>decorrelatedExponentialBackoff.minWait = 100, maxWait = 30000, lastWait = 100\<rparr>,
    sconst (3 / 4))"
  by (simp add: decorrelated_simps float64_round_numeral)



text \<open>
  C10: with \<open>minWait = 0\<close> every call of \<open>getDuration\<close> finds \<open>lastWait\<close> equal to the
  zero duration: each of \<open>n\<close> successive calls returns 0, the instance still has
  \<open>lastWait = 0\<close> and the random source has not been read.
\<close>

theorem getDurations_zero_minWait:
  "getDurations n (DecorrelatedExponentialBackoff_New (NewDecorrelatedExponentialBackoff 0 M)) g =
     (replicate n 0,
      \<lparr>decorrelatedExponentialBackoff.minWait = 0, maxWait = M, lastWait = zeroDuration\<rparr>, g)"
  by (induction n)
    (simp_all add: decorrelatedExponentialBackoff_getDuration_def zeroDuration_def
      DecorrelatedExponentialBackoff_New_def NewDecorrelatedExponentialBackoff_def)

section \<open>The exponential backoff\<close>

lemma sint_maxInt64: "sint (maxInt64 a b) = max (sint a) (sint b)"
  by (simp add: maxInt64_def word_sless_alt max_def)

lemma two_power_below:
  assumes "n < 63"
  shows "(2::int) ^ n < 2 ^ 63"
  using assms by (intro power_strict_increasing) simp_all

lemma sint_multiplier:
  assumes "n < 63"
  shows "sint (push_bit n (1 :: 64 word)) = 2 ^ n"
proof -
  have "sint (word_of_int (2 ^ n) :: 64 word) = 2 ^ n"
  proof (rule sint_of_int_64)
    have "- (2 ^ 63) \<le> (0::int)" by simp
    also have "(0::int) \<le> 2 ^ n" by simp
    finally show "- (2 ^ 63) \<le> (2::int) ^ n" .
    show "(2::int) ^ n < 2 ^ 63" by (rule two_power_below [OF assms])
  qed
  then show ?thesis
    by (simp add: push_bit_eq_mult)
qed

lemma div_less_iff_int:
  fixes a b c :: int
  assumes "0 < c"
  shows "a div c < b \<longleftrightarrow> a < b * c"
proof -
  have "a div c < b \<longleftrightarrow> \<lfloor>(of_int a :: rat) / of_int c\<rfloor> < b"
    by (simp add: floor_divide_of_int_eq)
  also have "\<dots> \<longleftrightarrow> (of_int a :: rat) / of_int c < of_int b"
    by (rule floor_less_iff)
  also have "\<dots> \<longleftrightarrow> (of_int a :: rat) < of_int b * of_int c"
    using assms by (simp add: pos_divide_less_eq)
  also have "\<dots> \<longleftrightarrow> a < b * c"
    by (simp flip: of_int_mult)
  finally show ?thesis .
qed

lemma sdiv_nonneg:
  fixes a c :: int
  assumes "0 \<le> a" "0 < c"
  shows "a sdiv c = a div c"
  using assms by (cases "a = 0") (simp_all add: signed_divide_int_def)

lemma iteration_small:
  "\<not> numUint64Bits - 1 \<le> (i :: 64 word) \<Longrightarrow> unat i < 63"
  by (simp add: numUint64Bits_def word_le_nat_alt)

lemma iteration_large:
  "numUint64Bits - 1 \<le> (i :: 64 word) \<Longrightarrow> 63 \<le> unat i"
  by (simp add: numUint64Bits_def word_le_nat_alt)

text \<open>The duration before the jitter and before the clamp from below.\<close>

lemma exponential_unclamped:
  fixes m M mult :: "64 word" and n :: nat
  assumes n: "n < 63" and mult: "sint mult = 2 ^ n" and m0: "0 \<le> sint m" and mM: "sint m \<le> sint M"
  shows "sint (if int64_div M mult <s m then M else m * mult)
           = min (sint M) (sint m * 2 ^ n)"
proof -
  define q where "q = sint M div 2 ^ n"
  have M0: "0 \<le> sint M" using m0 mM by simp
  have p: "(0::int) < 2 ^ n" by simp
  have p1: "(1::int) \<le> 2 ^ n" by simp
  have q0: "0 \<le> q"
    using M0 p by (simp add: q_def pos_imp_zdiv_nonneg_iff)
  have "(sint M + 1) * 1 \<le> (sint M + 1) * 2 ^ n"
    using M0 p1 by (intro mult_left_mono) simp_all
  then have "sint M < (sint M + 1) * 2 ^ n"
    by simp
  then have "q < sint M + 1"
    unfolding q_def by (simp only: div_less_iff_int [OF p])
  then have qM: "q < 2 ^ 63"
    using sint_range_64 [of M] by simp
  have "sint (int64_div M mult) = sint (word_of_int q :: 64 word)"
    using M0 p by (simp only: int64_div_def mult sdiv_nonneg q_def)
  also have "\<dots> = q"
    using q0 qM by (intro sint_of_int_64) simp_all
  finally have quot: "sint (int64_div M mult) = q" .
  have cmp: "int64_div M mult <s m \<longleftrightarrow> sint M < sint m * 2 ^ n"
    by (simp only: word_sless_alt quot q_def div_less_iff_int [OF p])
  show ?thesis
  proof (cases "sint M < sint m * 2 ^ n")
    case True
    then show ?thesis by (simp add: cmp)
  next
    case False
    have lo: "0 \<le> sint m * 2 ^ n"
      using m0 by simp
    have hi: "sint m * 2 ^ n < 2 ^ 63"
      using False sint_range_64 [of M] by simp
    have "sint (m * mult) = signed_take_bit 63 (sint m * 2 ^ n)"
      by (simp add: sint_word_mult mult)
    also have "\<dots> = sint m * 2 ^ n"
      using lo hi by (intro signed_take_bit_int_eq_self) simp_all
    finally show ?thesis
      using False by (simp add: cmp)
  qed
qed


lemma exponential_duration:
  assumes small: "\<not> numUint64Bits - 1 \<le> i"
    and m0: "0 \<le> sint (ExponentialBackoff.minWait b)"
    and mM: "sint (ExponentialBackoff.minWait b) \<le> sint (ExponentialBackoff.maxWait b)"
  shows "sint (if int64_div (ExponentialBackoff.maxWait b) (push_bit (unat i) 1)
                    <s ExponentialBackoff.minWait b
               then ExponentialBackoff.maxWait b
               else ExponentialBackoff.minWait b * push_bit (unat i) 1)
         = min (sint (ExponentialBackoff.maxWait b)) (sint (ExponentialBackoff.minWait b) * 2 ^ unat i)"
  using exponential_unclamped [OF iteration_small [OF small]
      sint_multiplier [OF iteration_small [OF small]] m0 mM] .

lemma exponential_unjittered:
  assumes nj: "\<not> jitter b"
    and m0: "0 \<le> sint (ExponentialBackoff.minWait b)"
    and mM: "sint (ExponentialBackoff.minWait b) \<le> sint (ExponentialBackoff.maxWait b)"
    and small: "\<not> numUint64Bits - 1 \<le> i"
  shows "sint (fst (ExponentialBackoff_getDuration b i g))
           = min (sint (ExponentialBackoff.maxWait b)) (sint (ExponentialBackoff.minWait b) * 2 ^ unat i)"
    and "snd (ExponentialBackoff_getDuration b i g) = g"
proof -
  let ?d = "if int64_div (ExponentialBackoff.maxWait b) (push_bit (unat i) 1)
                    <s ExponentialBackoff.minWait b
               then ExponentialBackoff.maxWait b
               else ExponentialBackoff.minWait b * push_bit (unat i) 1"
  have eq: "ExponentialBackoff_getDuration b i g = (maxInt64 ?d (ExponentialBackoff.minWait b), g)"
    using nj small by (simp add: ExponentialBackoff_getDuration_def Let_def)
  have "(1::int) \<le> 2 ^ unat i" by simp
  then have "sint (ExponentialBackoff.minWait b) * 1
      \<le> sint (ExponentialBackoff.minWait b) * 2 ^ unat i"
    using m0 by (intro mult_left_mono)
  then have "sint (ExponentialBackoff.minWait b)
      \<le> min (sint (ExponentialBackoff.maxWait b)) (sint (ExponentialBackoff.minWait b) * 2 ^ unat i)"
    using mM by simp
  then have "max (sint ?d) (sint (ExponentialBackoff.minWait b))
      = min (sint (ExponentialBackoff.maxWait b)) (sint (ExponentialBackoff.minWait b) * 2 ^ unat i)"
    unfolding exponential_duration [OF small m0 mM] by (rule max_absorb1)
  then show "sint (fst (ExponentialBackoff_getDuration b i g))
           = min (sint (ExponentialBackoff.maxWait b)) (sint (ExponentialBackoff.minWait b) * 2 ^ unat i)"
    unfolding eq fst_conv sint_maxInt64 .
  show "snd (ExponentialBackoff_getDuration b i g) = g"
    by (simp add: eq)
qed

lemma exponential_saturated:
  assumes large: "numUint64Bits - 1 \<le> i"
  shows "ExponentialBackoff_getDuration b i g = (ExponentialBackoff.maxWait b, g)"
  using large by (simp add: ExponentialBackoff_getDuration_def)

lemma exponential_unjittered_all:
  assumes nj: "\<not> jitter b"
    and m0: "0 < sint (ExponentialBackoff.minWait b)"
    and mM: "sint (ExponentialBackoff.minWait b) \<le> sint (ExponentialBackoff.maxWait b)"
  shows "sint (fst (ExponentialBackoff_getDuration b i g))
           = min (sint (ExponentialBackoff.maxWait b)) (sint (ExponentialBackoff.minWait b) * 2 ^ unat i)
         \<and> snd (ExponentialBackoff_getDuration b i g) = g"
proof (cases "numUint64Bits - 1 \<le> i")
  case True
  have "(2::int) ^ 63 \<le> 2 ^ unat i"
    using iteration_large [OF True] by (intro power_increasing) simp_all
  moreover have "(2::int) ^ unat i \<le> sint (ExponentialBackoff.minWait b) * 2 ^ unat i"
    using mult_right_mono [of 1 "sint (ExponentialBackoff.minWait b)" "2 ^ unat i"] m0 by simp
  moreover have "sint (ExponentialBackoff.maxWait b) < 2 ^ 63"
    using sint_range_64 [of "ExponentialBackoff.maxWait b"] by simp
  ultimately have "sint (ExponentialBackoff.maxWait b)
      \<le> sint (ExponentialBackoff.minWait b) * 2 ^ unat i"
    by linarith
  then show ?thesis
    by (simp add: exponential_saturated [OF True])
next
  case False
  have m0': "0 \<le> sint (ExponentialBackoff.minWait b)" using m0 by simp
  from exponential_unjittered [OF nj m0' mM False] show ?thesis by simp
qed


lemmas exponential_simps = ExponentialBackoff_getDuration_def numUint64Bits_def int64_div_def
  signed_divide_int_def maxInt64_def word_sless_alt word_sle_eq word_le_nat_alt

lemma exponential_table:
  "map (\<lambda>i. fst (ExponentialBackoff_getDuration
                    \<lparr>ExponentialBackoff.minWait = 100, maxWait = 30000, jitter = False\<rparr> i g))
       [0, 1, 2, 3, 4, 5, 6, 7, 8, 9]
     = [100, 200, 400, 800, 1600, 3200, 6400, 12800, 25600, 30000]"
  by (simp add: exponential_simps)

lemma exponential_table_beyond:
  assumes "10 \<le> (j :: uint64)"
  shows "fst (ExponentialBackoff_getDuration
                \<lparr>ExponentialBackoff.minWait = 100, maxWait = 30000, jitter = False\<rparr> j g) = 30000"
proof -
  let ?b = "\<lparr>ExponentialBackoff.minWait = 100, maxWait = 30000, jitter = False\<rparr>"
  have "10 \<le> unat j"
    using assms by (simp add: word_le_nat_alt)
  then have "(2::int) ^ 10 \<le> 2 ^ unat j"
    by (intro power_increasing) simp_all
  then have big: "(30000::int) \<le> 100 * 2 ^ unat j"
    by simp
  have "sint (fst (ExponentialBackoff_getDuration ?b j g))
      = min (sint (ExponentialBackoff.maxWait ?b)) (sint (ExponentialBackoff.minWait ?b) * 2 ^ unat j)"
    using exponential_unjittered_all [of ?b j g] by simp
  also have "\<dots> = sint (30000 :: int64)"
    using big by simp
  finally show ?thesis
    by (simp only: word_eq_iff_signed [symmetric])
qed

text \<open>
  C5, as amended: for the exponential backoff without jitter with \<open>0 < minWait \<le>
  maxWait\<close>, \<open>getDuration(i)\<close> is the minimum of \<open>maxWait\<close> and \<open>minWait * 2 ^ i\<close>,
  the product taken in the integers, for every \<open>i\<close> of a \<open>uint64\<close>: no shift and no
  multiplication wraps around, and the random source is not read. For \<open>minWait = 100\<close>
  and \<open>maxWait = 30000\<close> the durations for \<open>i = 0, \<dots>, 9\<close> are 100, 200, 400, 800, 1600,
  3200, 6400, 12800, 25600 and 30000, and 30000 for every larger \<open>i\<close>.
\<close>

theorem exponential_without_jitter:
  "(\<not> jitter b \<and> 0 <s ExponentialBackoff.minWait b
      \<and> ExponentialBackoff.minWait b \<le>s ExponentialBackoff.maxWait b \<longrightarrow>
      sint (fst (ExponentialBackoff_getDuration b i g))
        = min (sint (ExponentialBackoff.maxWait b)) (sint (ExponentialBackoff.minWait b) * 2 ^ unat i)
      \<and> snd (ExponentialBackoff_getDuration b i g) = g)
   \<and> map (\<lambda>i. fst (ExponentialBackoff_getDuration
                    \<lparr>ExponentialBackoff.minWait = 100, maxWait = 30000, jitter = False\<rparr> i g))
       [0, 1, 2, 3, 4, 5, 6, 7, 8, 9]
     = [100, 200, 400, 800, 1600, 3200, 6400, 12800, 25600, 30000]
   \<and> (10 \<le> j \<longrightarrow>
       fst (ExponentialBackoff_getDuration
              \<lparr>ExponentialBackoff.minWait = 100, maxWait = 30000, jitter = False\<rparr> j g) = 30000)"
  using exponential_unjittered_all [of b i g] exponential_table [of g]
    exponential_table_beyond [of j g]
  by (simp add: word_sless_alt word_sle_eq)

theorem exponential_without_jitter_witness:
  "sint (fst (ExponentialBackoff_getDuration
           \<lparr>ExponentialBackoff.minWait = 100, maxWait = 9223372036854775807, jitter = False\<rparr>
           62 (sconst 0)))
     = min 9223372036854775807 (100 * 2 ^ 62)
   \<and> fst (ExponentialBackoff_getDuration
           \<lparr>ExponentialBackoff.minWait = 100, maxWait = 30000, jitter = False\<rparr>
           11 (sconst 0)) = 30000"
  using exponential_without_jitter
    [of "\<lparr>ExponentialBackoff.minWait = 100, maxWait = 9223372036854775807, jitter = False\<rparr>"
        62 "sconst 0" 11]
  by (simp add: word_sless_alt word_sle_eq)

text \<open>
  C5 as stated fails outside \<open>0 < minWait \<le> maxWait\<close>: with \<open>minWait = 200\<close> and
  \<open>maxWait = 100\<close> the clamp from below makes \<open>getDuration(0)\<close> return 200, not the
  minimum 100; with \<open>minWait = 0\<close> and \<open>maxWait = 100\<close>, \<open>getDuration(63)\<close> returns
  \<open>maxWait\<close>, not \<open>0 * 2 ^ 63 = 0\<close>.
\<close>

theorem exponential_minWait_above_maxWait:
  "fst (ExponentialBackoff_getDuration
          \<lparr>ExponentialBackoff.minWait = 200, maxWait = 100, jitter = False\<rparr> 0 (sconst 0)) = 200
   \<and> min (sint (100 :: int64)) (sint (200 :: int64) * 2 ^ unat (0 :: uint64)) = 100
   \<and> fst (ExponentialBackoff_getDuration
          \<lparr>ExponentialBackoff.minWait = 0, maxWait = 100, jitter = False\<rparr> 63 (sconst 0)) = 100
   \<and> min (sint (100 :: int64)) (sint (0 :: int64) * 2 ^ unat (63 :: uint64)) = 0"
  by (simp add: exponential_simps)













section \<open>The retrier's configuration\<close>

text \<open>
  C8: a retrier constructed with no options has \<open>maxAttempts = 1\<close>, the predicate
  \<open>AnyErr\<close>, which is true exactly of the errors that are not \<open>nil\<close>, and
  \<open>DefaultBackoff\<close> as its backoff factory, which is the decorrelated exponential backoff
  with a floor of 500 milliseconds (500000000 ns) and a ceiling of 60 seconds
  (60000000000 ns).
\<close>

theorem NewRetrier_defaults:
  "maxAttempts (NewRetrier [] :: ('e, 'c) Retrier) = 1
   \<and> isRetriable (NewRetrier [] :: ('e, 'c) Retrier) = AnyErr
   \<and> AnyErr (None :: 'e option) = False
   \<and> AnyErr (Some (e :: 'e)) = True
   \<and> backoffFactory (NewRetrier [] :: ('e, 'c) Retrier) = DefaultBackoff
   \<and> (DefaultBackoff :: 'c BackoffFactory) = DecorrelatedExponentialBackoff_ptr
         \<lparr>DecorrelatedExponentialBackoff.minWait = 500 * time_Millisecond,
          maxWait = 60 * time_Second\<rparr>
   \<and> sint (500 * time_Millisecond) = 500000000
   \<and> sint (60 * time_Second) = 60000000000"
  by (simp add: NewRetrier_def defaultMaxAttempts_def AnyErr_def DefaultBackoff_def
      NewDecorrelatedExponentialBackoff_def time_Millisecond_def time_Second_def)

section \<open>The loop of \<open>Do\<close>\<close>

lemma invocations_append: "invocations (h @ h') = invocations h @ invocations h'"
  by (induction h rule: invocations.induct) simp_all

lemma pauses_append: "pauses (h @ h') = pauses h @ pauses h'"
  by (induction h rule: pauses.induct) simp_all

lemma news_append: "news (h @ h') = news h + news h'"
  by (induction h rule: news.induct) simp_all

lemma unat_succ_below:
  fixes i N :: "64 word"
  assumes "i < N"
  shows "unat (i + 1) = Suc (unat i)"
proof -
  have below: "unat i < unat N"
    using assms by (simp add: word_less_nat_alt)
  have "unat N < 2 ^ 64"
    using unsigned_less [of N] by simp
  with below show ?thesis
    by (simp add: unat_word_ariths)
qed

lemma fnResult_0: "fnResult fn 0 s = fst (fn s)"
  by (simp add: fnResult_def fnStateAfter_def)

lemma fnStateAfter_shift: "fnStateAfter fn k (snd (fn s)) = fnStateAfter fn (Suc k) s"
  by (induction k) (simp_all add: fnStateAfter_def)

lemma fnResult_shift: "fnResult fn k (snd (fn s)) = fnResult fn (Suc k) s"
  by (simp only: fnResult_def fnStateAfter_shift)

lemma Do_loop_exit: "\<not> i < maxAttempts r \<Longrightarrow> Do_loop r fn i x = x"
  by (subst Do_loop.simps) simp

lemma Do_loop_return:
  assumes "i < maxAttempts r" "\<not> isRetriable r (fst (fn (fnState x)))"
  shows "Do_loop r fn i x =
    x\<lparr>err := fst (fn (fnState x)), fnState := snd (fn (fnState x)),
      history := history x @ [Invoke (fst (fn (fnState x)))]\<rparr>"
  using assms by (subst Do_loop.simps) (simp add: split_beta)

lemma Do_loop_retry:
  assumes "i < maxAttempts r" "isRetriable r (fst (fn (fnState x)))"
  shows "\<exists>x2. Do_loop r fn i x = Do_loop r fn (i + 1) x2
    \<and> fnState x2 = snd (fn (fnState x))
    \<and> err x2 = fst (fn (fnState x))
    \<and> history x2 = history x @ Invoke (fst (fn (fnState x)))
         # (if i + 1 < maxAttempts r then [Pause i] else [])"
proof (cases "i + 1 < maxAttempts r")
  case True
  let ?x2 = "x\<lparr>err := fst (fn (fnState x)), fnState := snd (fn (fnState x)),
      backoff := fst (Backoff_Backoff (backoff x) i (world x)),
      world := snd (Backoff_Backoff (backoff x) i (world x)),
      history := history x @ [Invoke (fst (fn (fnState x))), Pause i]\<rparr>"
  have "Do_loop r fn i x = Do_loop r fn (i + 1) ?x2"
    using assms True by (subst Do_loop.simps) (simp add: split_beta Let_def)
  then show ?thesis
    using True by (intro exI [of _ ?x2]) simp
next
  case False
  let ?x2 = "x\<lparr>err := fst (fn (fnState x)), fnState := snd (fn (fnState x)),
      history := history x @ [Invoke (fst (fn (fnState x)))]\<rparr>"
  have "Do_loop r fn i x = Do_loop r fn (i + 1) ?x2"
    using assms False by (subst Do_loop.simps) (simp add: split_beta Let_def)
  then show ?thesis
    using False by (intro exI [of _ ?x2]) simp
qed

text \<open>A run in which the call number \<open>K + 1\<close> is the first whose result is not retriable.\<close>

lemma Do_loop_stops:
  assumes "unat i + K < unat (maxAttempts r)"
    and "\<forall>k<K. isRetriable r (fnResult fn k (fnState x))"
    and "\<not> isRetriable r (fnResult fn K (fnState x))"
  shows "err (Do_loop r fn i x) = fnResult fn K (fnState x)
    \<and> fnState (Do_loop r fn i x) = fnStateAfter fn (Suc K) (fnState x)
    \<and> invocations (history (Do_loop r fn i x))
        = invocations (history x) @ map (\<lambda>k. fnResult fn k (fnState x)) [0..<Suc K]
    \<and> pauses (history (Do_loop r fn i x))
        = pauses (history x) @ map word_of_nat [unat i..<unat i + K]
    \<and> news (history (Do_loop r fn i x)) = news (history x)
    \<and> last (history (Do_loop r fn i x)) = Invoke (fnResult fn K (fnState x))"
  using assms
proof (induction K arbitrary: i x)
  case 0
  have lt: "i < maxAttempts r"
    using "0.prems"(1) by (simp add: word_less_nat_alt)
  have stop: "\<not> isRetriable r (fst (fn (fnState x)))"
    using "0.prems"(3) by (simp add: fnResult_0)
  show ?case
    by (simp add: Do_loop_return [where fn = fn and x = x, OF lt stop] fnResult_0 fnStateAfter_def
        invocations_append pauses_append news_append)
next
  case (Suc K)
  have lt: "i < maxAttempts r"
    using Suc.prems(1) by (simp add: word_less_nat_alt)
  have succ: "unat (i + 1) = Suc (unat i)"
    by (rule unat_succ_below [OF lt])
  have lt': "i + 1 < maxAttempts r"
    using Suc.prems(1) succ by (simp add: word_less_nat_alt)
  have again: "isRetriable r (fst (fn (fnState x)))"
    using Suc.prems(2) by (auto simp flip: fnResult_0)
  from Do_loop_retry [where fn = fn and x = x, OF lt again] lt'
  obtain x2 where step: "Do_loop r fn i x = Do_loop r fn (i + 1) x2"
    and st: "fnState x2 = snd (fn (fnState x))"
    and hist: "history x2 = history x @ [Invoke (fst (fn (fnState x))), Pause i]"
    by auto
  have p1: "unat (i + 1) + K < unat (maxAttempts r)"
    using Suc.prems(1) succ by simp
  have p2: "\<forall>k<K. isRetriable r (fnResult fn k (fnState x2))"
    using Suc.prems(2) by (auto simp: st fnResult_shift)
  have p3: "\<not> isRetriable r (fnResult fn K (fnState x2))"
    using Suc.prems(3) by (simp add: st fnResult_shift)
  note ih = Suc.IH [OF p1 p2 p3]
  have idx: "[unat i..<unat i + Suc K] = unat i # [Suc (unat i)..<Suc (unat i) + K]"
    by (simp add: upt_conv_Cons)
  have calls: "map (\<lambda>k. fnResult fn k (fnState x)) [0..<Suc (Suc K)]
      = fst (fn (fnState x)) # map (\<lambda>k. fnResult fn k (fnState x2)) [0..<Suc K]"
    by (simp only: map_upt_Suc [of _ "Suc K"] fnResult_0 st fnResult_shift)
  show ?case
    using ih
    by (simp only: step calls idx succ st hist fnResult_shift fnStateAfter_shift
        invocations_append pauses_append news_append)
      (simp)
qed


text \<open>A run in which every call up to the last permitted one has a retriable result.\<close>

lemma Do_loop_exhausts:
  assumes "unat i + Suc n = unat (maxAttempts r)"
    and "\<forall>k<Suc n. isRetriable r (fnResult fn k (fnState x))"
  shows "err (Do_loop r fn i x) = fnResult fn n (fnState x)
    \<and> fnState (Do_loop r fn i x) = fnStateAfter fn (Suc n) (fnState x)
    \<and> invocations (history (Do_loop r fn i x))
        = invocations (history x) @ map (\<lambda>k. fnResult fn k (fnState x)) [0..<Suc n]
    \<and> pauses (history (Do_loop r fn i x))
        = pauses (history x) @ map word_of_nat [unat i..<unat i + n]
    \<and> news (history (Do_loop r fn i x)) = news (history x)
    \<and> last (history (Do_loop r fn i x)) = Invoke (fnResult fn n (fnState x))"
  using assms
proof (induction n arbitrary: i x)
  case 0
  have lt: "i < maxAttempts r"
    using "0.prems"(1) by (simp add: word_less_nat_alt)
  have succ: "unat (i + 1) = Suc (unat i)"
    by (rule unat_succ_below [OF lt])
  have last: "\<not> i + 1 < maxAttempts r"
    using "0.prems"(1) succ by (simp add: word_less_nat_alt)
  have again: "isRetriable r (fst (fn (fnState x)))"
    using "0.prems"(2) by (simp add: fnResult_0)
  from Do_loop_retry [where fn = fn and x = x, OF lt again] last
  obtain x2 where step: "Do_loop r fn i x = Do_loop r fn (i + 1) x2"
    and st: "fnState x2 = snd (fn (fnState x))"
    and er: "err x2 = fst (fn (fnState x))"
    and hist: "history x2 = history x @ [Invoke (fst (fn (fnState x)))]"
    by auto
  have "Do_loop r fn i x = x2"
    by (simp only: step Do_loop_exit [OF last])
  then show ?case
    by (simp add: st er hist fnResult_0 fnStateAfter_def
        invocations_append pauses_append news_append)
next
  case (Suc n)
  have lt: "i < maxAttempts r"
    using Suc.prems(1) by (simp add: word_less_nat_alt)
  have succ: "unat (i + 1) = Suc (unat i)"
    by (rule unat_succ_below [OF lt])
  have lt': "i + 1 < maxAttempts r"
    using Suc.prems(1) succ by (simp add: word_less_nat_alt)
  have again: "isRetriable r (fst (fn (fnState x)))"
    using Suc.prems(2) by (auto simp flip: fnResult_0)
  from Do_loop_retry [where fn = fn and x = x, OF lt again] lt'
  obtain x2 where step: "Do_loop r fn i x = Do_loop r fn (i + 1) x2"
    and st: "fnState x2 = snd (fn (fnState x))"
    and hist: "history x2 = history x @ [Invoke (fst (fn (fnState x))), Pause i]"
    by auto
  have p1: "unat (i + 1) + Suc n = unat (maxAttempts r)"
    using Suc.prems(1) succ by simp
  have p2: "\<forall>k<Suc n. isRetriable r (fnResult fn k (fnState x2))"
    using Suc.prems(2) by (auto simp: st fnResult_shift)
  note ih = Suc.IH [OF p1 p2]
  have idx: "[unat i..<unat i + Suc n] = unat i # [Suc (unat i)..<Suc (unat i) + n]"
    by (simp add: upt_conv_Cons)
  have calls: "map (\<lambda>k. fnResult fn k (fnState x)) [0..<Suc (Suc n)]
      = fst (fn (fnState x)) # map (\<lambda>k. fnResult fn k (fnState x2)) [0..<Suc n]"
    by (simp only: map_upt_Suc [of _ "Suc n"] fnResult_0 st fnResult_shift)
  show ?case
    using ih
    by (simp only: step calls idx succ st hist fnResult_shift fnStateAfter_shift
        invocations_append pauses_append news_append)
      (simp)
qed

text \<open>
  C1: a retrier with \<open>maxAttempts = N\<close>, \<open>N \<ge> 1\<close>, and an operation all of whose \<open>N\<close>
  calls return a result that the predicate finds retriable. \<open>Do\<close> returns the result of
  the call number \<open>N\<close> as it is; the operation is called exactly \<open>N\<close> times; the
  backoff's \<open>Backoff\<close> is called exactly \<open>N - 1\<close> times, with the indices
  \<open>0, \<dots>, N - 2\<close> in this order; the factory's \<open>New\<close> is called once; and the last
  thing \<open>Do\<close> does is that last call of the operation, not a pause.
\<close>

theorem Do_exhausts_attempts:
  assumes "maxAttempts r \<noteq> 0"
    and "\<forall>k < unat (maxAttempts r). isRetriable r (fnResult fn k s)"
  shows "err (Do r fn s w) = fnResult fn (unat (maxAttempts r) - 1) s
    \<and> invocations (history (Do r fn s w))
        = map (\<lambda>k. fnResult fn k s) [0..<unat (maxAttempts r)]
    \<and> pauses (history (Do r fn s w)) = map word_of_nat [0..<unat (maxAttempts r) - 1]
    \<and> news (history (Do r fn s w)) = 1
    \<and> last (history (Do r fn s w)) = Invoke (err (Do r fn s w))"
proof -
  define n where "n = unat (maxAttempts r) - 1"
  have N: "unat (maxAttempts r) = Suc n"
    using assms(1) by (simp add: n_def unat_gt_0 word_neq_0_conv)
  let ?x = "\<lparr>err = None, fnState = s, backoff = New (backoffFactory r), world = w,
      history = [NewBackoff]\<rparr>"
  have p1: "unat (0 :: 64 word) + Suc n = unat (maxAttempts r)"
    by (simp add: N)
  have p2: "\<forall>k<Suc n. isRetriable r (fnResult fn k (fnState ?x))"
    using assms(2) by (simp add: N)
  from Do_loop_exhausts [OF p1 p2] show ?thesis
    by (simp add: Do_def N)
qed


lemmas cfg_simps = NewRetrier_def MaxAttemptsOption_def RetriableOption_def BackoffOption_def
  NoopBackoff_def defaultMaxAttempts_def

lemmas makeFn_simps = AnyErr_def makeFn_def fnResult_def fnStateAfter_def word_sless_alt

lemma makeFn_3_results:
  "fnResult (makeFn 3) 0 0 = Some ''err''"
  "fnResult (makeFn 3) (Suc 0) 0 = Some ''err''"
  "fnResult (makeFn 3) (Suc (Suc 0)) 0 = Some ''err''"
  "fnResult (makeFn 3) (Suc (Suc (Suc 0))) 0 = None"
  by (simp_all add: makeFn_simps)

theorem Do_exhausts_attempts_witness:
  "err (Do (NewRetrier [MaxAttemptsOption 3, BackoffOption (FunctionalBackoff (\<lambda>i c. c @ [i]))])
          (makeFn 3) 0 \<lparr>closure = [], rand = sconst 0, slept = []\<rparr>) = Some ''err''
   \<and> invocations (history
        (Do (NewRetrier [MaxAttemptsOption 3, BackoffOption (FunctionalBackoff (\<lambda>i c. c @ [i]))])
          (makeFn 3) 0 \<lparr>closure = [], rand = sconst 0, slept = []\<rparr>))
       = [Some ''err'', Some ''err'', Some ''err'']
   \<and> pauses (history
        (Do (NewRetrier [MaxAttemptsOption 3, BackoffOption (FunctionalBackoff (\<lambda>i c. c @ [i]))])
          (makeFn 3) 0 \<lparr>closure = [], rand = sconst 0, slept = []\<rparr>))
       = [0, 1]"
proof -
  let ?r = "NewRetrier [MaxAttemptsOption 3, BackoffOption (FunctionalBackoff (\<lambda>i c. c @ [i]))]
              :: (string, 64 word list) Retrier"
  have n: "unat (maxAttempts ?r) = Suc (Suc (Suc 0))"
    by (simp add: cfg_simps)
  have h1: "maxAttempts ?r \<noteq> 0"
    by (simp add: cfg_simps)
  have "\<forall>k < Suc (Suc (Suc 0)). isRetriable ?r (fnResult (makeFn 3) k 0)"
    by (simp add: All_less_Suc makeFn_3_results cfg_simps AnyErr_def)
  then have h2: "\<forall>k < unat (maxAttempts ?r). isRetriable ?r (fnResult (makeFn 3) k 0)"
    by (simp only: n)
  show ?thesis
    using Do_exhausts_attempts [OF h1 h2, of "\<lparr>closure = [], rand = sconst 0, slept = []\<rparr>"]
    by (simp add: n makeFn_3_results upt_rec)
qed

text \<open>
  C3: a retrier with \<open>maxAttempts = N\<close> and the default predicate \<open>AnyErr\<close>, and an
  operation whose first \<open>K\<close> calls return an error and whose next call returns \<open>nil\<close>,
  with \<open>K < N\<close>. \<open>Do\<close> returns \<open>nil\<close> and the operation is called exactly \<open>K + 1\<close>
  times (with \<open>K\<close> pauses, of indices \<open>0, \<dots>, K - 1\<close>, between the calls).
\<close>

theorem Do_succeeds_after_failures:
  assumes "K < unat (maxAttempts r)"
    and "isRetriable r = AnyErr"
    and "\<forall>k<K. fnResult fn k s \<noteq> None"
    and "fnResult fn K s = None"
  shows "err (Do r fn s w) = None
    \<and> length (invocations (history (Do r fn s w))) = K + 1
    \<and> invocations (history (Do r fn s w)) = map (\<lambda>k. fnResult fn k s) [0..<Suc K]
    \<and> pauses (history (Do r fn s w)) = map word_of_nat [0..<K]"
proof -
  let ?x = "\<lparr>err = None, fnState = s, backoff = New (backoffFactory r), world = w,
      history = [NewBackoff]\<rparr>"
  have p1: "unat (0 :: 64 word) + K < unat (maxAttempts r)"
    using assms(1) by simp
  have p2: "\<forall>k<K. isRetriable r (fnResult fn k (fnState ?x))"
    using assms(2,3) by (simp add: AnyErr_def)
  have p3: "\<not> isRetriable r (fnResult fn K (fnState ?x))"
    using assms(2,4) by (simp add: AnyErr_def)
  from Do_loop_stops [OF p1 p2 p3] assms(4) show ?thesis
    by (simp add: Do_def)
qed

theorem Do_succeeds_after_failures_witness:
  "err (Do (NewRetrier [MaxAttemptsOption 4, BackoffOption NoopBackoff])
          (makeFn 3) 0 \<lparr>closure = (), rand = sconst 0, slept = []\<rparr>) = None
   \<and> length (invocations (history
        (Do (NewRetrier [MaxAttemptsOption 4, BackoffOption NoopBackoff])
          (makeFn 3) 0 \<lparr>closure = (), rand = sconst 0, slept = []\<rparr>))) = 4"
proof -
  let ?r = "NewRetrier [MaxAttemptsOption 4, BackoffOption NoopBackoff] :: (string, unit) Retrier"
  have h1: "Suc (Suc (Suc 0)) < unat (maxAttempts ?r)"
    by (simp add: cfg_simps)
  have h2: "isRetriable ?r = AnyErr"
    by (simp add: cfg_simps)
  have h3: "\<forall>k<Suc (Suc (Suc 0)). fnResult (makeFn 3) k 0 \<noteq> None"
    by (simp add: All_less_Suc makeFn_3_results)
  have h4: "fnResult (makeFn 3) (Suc (Suc (Suc 0))) 0 = None"
    by (simp add: makeFn_3_results)
  show ?thesis
    using Do_succeeds_after_failures [OF h1 h2 h3 h4, of "\<lparr>closure = (), rand = sconst 0, slept = []\<rparr>"]
    by simp
qed

text \<open>
  C4, as amended: in a retrier with \<open>maxAttempts = N\<close>, if the call number \<open>K + 1\<close> of
  the operation, \<open>K < N\<close>, is the first whose result the predicate does not find
  retriable, \<open>Do\<close> returns that result at once: the operation has been called
  \<open>K + 1\<close> times and is in the state that call left, the backoff has paused \<open>K\<close>
  times, and that call is the last thing \<open>Do\<close> did. With a predicate that is always
  false this is the case \<open>K = 0\<close>: for every \<open>N \<ge> 1\<close>, \<open>Do\<close> returns the result of
  the first call after exactly one call and no pause.
\<close>

theorem Do_returns_nonretriable:
  assumes "K < unat (maxAttempts r)"
    and "\<forall>k<K. isRetriable r (fnResult fn k s)"
    and "\<not> isRetriable r (fnResult fn K s)"
  shows "err (Do r fn s w) = fnResult fn K s
    \<and> invocations (history (Do r fn s w)) = map (\<lambda>k. fnResult fn k s) [0..<Suc K]
    \<and> pauses (history (Do r fn s w)) = map word_of_nat [0..<K]
    \<and> last (history (Do r fn s w)) = Invoke (fnResult fn K s)
    \<and> fnState (Do r fn s w) = fnStateAfter fn (Suc K) s"
proof -
  let ?x = "\<lparr>err = None, fnState = s, backoff = New (backoffFactory r), world = w,
      history = [NewBackoff]\<rparr>"
  have p1: "unat (0 :: 64 word) + K < unat (maxAttempts r)"
    using assms(1) by simp
  have p2: "\<forall>k<K. isRetriable r (fnResult fn k (fnState ?x))"
    using assms(2) by simp
  have p3: "\<not> isRetriable r (fnResult fn K (fnState ?x))"
    using assms(3) by simp
  from Do_loop_stops [OF p1 p2 p3] show ?thesis
    by (simp add: Do_def)
qed

theorem Do_returns_nonretriable_witness:
  "err (Do (NewRetrier [MaxAttemptsOption 3, RetriableOption (\<lambda>e. False), BackoffOption NoopBackoff])
          (makeFn 3) 0 \<lparr>closure = (), rand = sconst 0, slept = []\<rparr>) = Some ''err''
   \<and> invocations (history
        (Do (NewRetrier [MaxAttemptsOption 3, RetriableOption (\<lambda>e. False), BackoffOption NoopBackoff])
          (makeFn 3) 0 \<lparr>closure = (), rand = sconst 0, slept = []\<rparr>)) = [Some ''err'']
   \<and> pauses (history
        (Do (NewRetrier [MaxAttemptsOption 3, RetriableOption (\<lambda>e. False), BackoffOption NoopBackoff])
          (makeFn 3) 0 \<lparr>closure = (), rand = sconst 0, slept = []\<rparr>)) = []"
proof -
  let ?r = "NewRetrier [MaxAttemptsOption 3, RetriableOption (\<lambda>e. False), BackoffOption NoopBackoff]
      :: (string, unit) Retrier"
  have h1: "0 < unat (maxAttempts ?r)"
    by (simp add: cfg_simps)
  have h2: "\<forall>k<0. isRetriable ?r (fnResult (makeFn 3) k 0)"
    by simp
  have h3: "\<not> isRetriable ?r (fnResult (makeFn 3) 0 0)"
    by (simp add: cfg_simps)
  show ?thesis
    using Do_returns_nonretriable [OF h1 h2 h3, of "\<lparr>closure = (), rand = sconst 0, slept = []\<rparr>"]
    by (simp add: makeFn_3_results)
qed

text \<open>
  C4 as stated fails for \<open>maxAttempts = 0\<close>: with the predicate that is always false
  and an operation whose first call would return the error \<open>err\<close>, \<open>Do\<close> returns \<open>nil\<close>
  and the operation is not called at all.
\<close>

theorem Do_always_false_zero_attempts:
  "fnResult (makeFn 3) 0 0 = Some ''err''
   \<and> err (Do (NewRetrier [MaxAttemptsOption 0, RetriableOption (\<lambda>e. False)])
          (makeFn 3) 0 \<lparr>closure = (), rand = sconst 0, slept = []\<rparr>) = None
   \<and> invocations (history
        (Do (NewRetrier [MaxAttemptsOption 0, RetriableOption (\<lambda>e. False)])
          (makeFn 3) 0 \<lparr>closure = (), rand = sconst 0, slept = []\<rparr>)) = []"
  by (simp add: makeFn_3_results cfg_simps Do_def Do_loop.simps)

text \<open>
  C9: whatever the retrier was before, after \<open>MaxAttemptsOption(0)\<close> its \<open>Do\<close> calls
  the factory's \<open>New\<close> once and returns \<open>nil\<close>; the operation and the backoff's
  \<open>Backoff\<close> are never called, so the state of \<open>fn\<close> and the world are as they were.
\<close>

theorem Do_zero_attempts:
  "Do (MaxAttemptsOption 0 r) fn s w =
     \<lparr>err = None, fnState = s, backoff = New (backoffFactory r), world = w,
      history = [NewBackoff]\<rparr>"
  by (simp add: Do_def MaxAttemptsOption_def Do_loop.simps)

end
